theory Spec2Isabelle
  imports Complex_Main "HOL-Library.AList"
begin

section \<open>Python values: exceptions, loops, truncation\<close>

text \<open>
  The development embeds \<^verbatim>\<open>src/terrain_management/high_res_dem_gen.py\<close>.
  A Python exception is a value. A method that mutates \<^verbatim>\<open>self\<close> returns
  \<open>Ok s\<close> with the state it leaves behind, or \<open>Raise err s\<close> with the state at the
  moment the exception escapes (the mutations done so far are kept, as in Python).
\<close>

datatype error = KeyError | ValueError | ZeroDivisionError

datatype 's result = Ok 's | Raise error 's

text \<open>A \<^verbatim>\<open>for\<close> loop whose body may raise: the first exception ends the loop.\<close>

fun for_each :: "('a \<Rightarrow> 's \<Rightarrow> 's result) \<Rightarrow> 'a list \<Rightarrow> 's \<Rightarrow> 's result" where
  "for_each f [] s = Ok s"
| "for_each f (x # xs) s =
     (case f x s of Ok s' \<Rightarrow> for_each f xs s' | Raise err s' \<Rightarrow> Raise err s')"

text \<open>
  \<^verbatim>\<open>int(r)\<close> on a float truncates toward zero. Floats are idealised as reals:
  rounding, infinities and NaN are outside the model.
\<close>

definition py_int :: "real \<Rightarrow> int" where
  "py_int r = (if 0 \<le> r then \<lfloor>r\<rfloor> else \<lceil>r\<rceil>)"

text \<open>
  \<^verbatim>\<open>range(a, b, 1)\<close> is the list \<open>[a..b - 1]\<close>; the two grid loops run over
  \<^verbatim>\<open>range(-num_blocks - 1, num_blocks + 2, 1)\<close>.
\<close>

definition block_range :: "int \<Rightarrow> int list" where
  "block_range n = [- n - 1..n + 1]"

section \<open>The block grid\<close>

text \<open>
  A block state is a Python dict with four boolean entries. The dicts are objects:
  \<^verbatim>\<open>shift_block_grid\<close> stores the same dict under a new key and writes through
  the old key, so the states live in a store addressed by references, and the tracker
  maps a local coordinate to a reference. Both dicts of the class are association
  lists in insertion order; \<^const>\<open>AList.update\<close> overwrites in place or appends,
  as a Python dict does.

  \<^verbatim>\<open>block_size\<close> is taken as an integer, as in the configuration shipped with the
  module (\<^verbatim>\<open>"block_size": 50\<close>); \<^verbatim>\<open>resolution\<close> and \<^verbatim>\<open>source_resolution\<close> are reals.
\<close>

record BlockState =
  has_crater_metadata :: bool
  has_crater_data :: bool
  has_terrain_data :: bool
  is_padding :: bool

type_synonym coord = "int \<times> int"
type_synonym ref = nat

record HighResDEMGenCfg =
  num_blocks :: int
  block_size :: int
  resolution :: real
  source_resolution :: real
  interpolation_padding :: int

text \<open>A two-dimensional numpy array: its shape and its elements at in-range indices.\<close>

record 'a ndarray =
  shape0 :: nat
  shape1 :: nat
  elems :: "int \<Rightarrow> int \<Rightarrow> 'a"

record 'a HighResDEMGen =
  settings :: HighResDEMGenCfg
  store :: "ref \<Rightarrow> BlockState"
  next_ref :: ref
  block_grid_tracker :: "(coord \<times> ref) list"
  map_grid_block2coords :: "(coord \<times> coord) list"
  current_block_coord :: coord
  high_res_dem :: "'a ndarray"
  low_res_dem :: "'a ndarray"
  lr_dem_px_offset :: "int \<times> int"
  lr_dem_ratio :: real
  lr_dem_block_size :: int

text \<open>The dict literal of \<^verbatim>\<open>build_block_grid\<close> and of the new-block branch.\<close>

definition empty_state :: BlockState where
  "empty_state = \<lparr>has_crater_metadata = False, has_crater_data = False,
     has_terrain_data = False, is_padding = False\<rparr>"

text \<open>The \<^verbatim>\<open>if / elif / else\<close> chain that decides the padding flag of a cell.\<close>

definition padding_flag :: "int \<Rightarrow> int \<Rightarrow> int \<Rightarrow> bool" where
  "padding_flag n x y =
     (if x = - n - 1 \<or> x = n + 1 then True
      else if y = - n - 1 \<or> y = n + 1 then True
      else False)"

text \<open>
  One iteration of the inner loop of \<^verbatim>\<open>build_block_grid\<close>: a fresh copy of the
  state is stored under \<open>(x_c, y_c)\<close>, its padding flag is written through that same
  key (the key was stored one line above, so the lookup finds the fresh copy), and
  the world anchor is mapped to the local coordinate.
\<close>

definition build_cell :: "int \<Rightarrow> int \<Rightarrow> 'a HighResDEMGen \<Rightarrow> 'a HighResDEMGen" where
  "build_cell x y e =
     (let n = num_blocks (settings e);
          x_c = x * block_size (settings e);
          x_i = x_c + fst (current_block_coord e);
          y_c = y * block_size (settings e);
          y_i = y_c + snd (current_block_coord e);
          r = next_ref e
      in e\<lparr>store := (store e)(r := empty_state\<lparr>is_padding := padding_flag n x y\<rparr>),
           next_ref := Suc r,
           block_grid_tracker := AList.update (x_c, y_c) r (block_grid_tracker e),
           map_grid_block2coords := AList.update (x_i, y_i) (x_c, y_c) (map_grid_block2coords e)\<rparr>)"

definition build_block_grid :: "'a HighResDEMGen \<Rightarrow> 'a HighResDEMGen" where
  "build_block_grid e =
     fold (\<lambda>x. fold (\<lambda>y. build_cell x y) (block_range (num_blocks (settings e))))
       (block_range (num_blocks (settings e)))
       (e\<lparr>block_grid_tracker := [], map_grid_block2coords := []\<rparr>)"

text \<open>
  The state of the loops of \<^verbatim>\<open>shift_block_grid\<close>: the store (the old dicts are
  mutated), the allocation pointer, and the two new dicts under construction. The old
  tracker and the old map are read from \<^verbatim>\<open>self\<close>, which the loops do not reassign.
\<close>

type_synonym shift_state =
  "(ref \<Rightarrow> BlockState) \<times> ref \<times> (coord \<times> ref) list \<times> (coord \<times> coord) list"

definition shift_cell :: "'a HighResDEMGen \<Rightarrow> coord \<Rightarrow> int \<Rightarrow> int \<Rightarrow> shift_state \<Rightarrow> shift_state result" where
  "shift_cell e coordinates x y s =
     (case s of (st, nr, new_tracker, new_map) \<Rightarrow>
      let n = num_blocks (settings e);
          x_c = x * block_size (settings e);
          x_i = x_c + fst coordinates;
          y_c = y * block_size (settings e);
          y_i = y_c + snd coordinates
      in case (case map_of (map_grid_block2coords e) (x_i, y_i) of
                 None \<Rightarrow> Ok (st(nr := empty_state), Suc nr, AList.update (x_c, y_c) nr new_tracker, new_map)
               | Some c2 \<Rightarrow>
                   (case map_of (block_grid_tracker e) c2 of
                      None \<Rightarrow> Raise KeyError s
                    | Some r \<Rightarrow> Ok (st, nr, AList.update (x_c, y_c) r new_tracker, new_map))) of
           Raise err s' \<Rightarrow> Raise err s'
         | Ok (st1, nr1, new_tracker1, new_map1) \<Rightarrow>
             let new_map2 = AList.update (x_i, y_i) (x_c, y_c) new_map1
             in (case map_of (block_grid_tracker e) (x_c, y_c) of
                   None \<Rightarrow> Raise KeyError (st1, nr1, new_tracker1, new_map2)
                 | Some r \<Rightarrow>
                     Ok (st1(r := (st1 r)\<lparr>is_padding := padding_flag n x y\<rparr>),
                         nr1, new_tracker1, new_map2)))"

definition shift_block_grid :: "'a HighResDEMGen \<Rightarrow> coord \<Rightarrow> 'a HighResDEMGen result" where
  "shift_block_grid e coordinates =
     (case for_each (\<lambda>x. for_each (\<lambda>y. shift_cell e coordinates x y)
                           (block_range (num_blocks (settings e))))
             (block_range (num_blocks (settings e)))
             (store e, next_ref e, [], []) of
        Raise err (st, nr, new_tracker, new_map) \<Rightarrow> Raise err (e\<lparr>store := st, next_ref := nr\<rparr>)
      | Ok (st, nr, new_tracker, new_map) \<Rightarrow>
          Ok (e\<lparr>store := st, next_ref := nr,
                block_grid_tracker := new_tracker,
                map_grid_block2coords := new_map\<rparr>))"

text \<open>The state dict that the tracker holds for a local coordinate, if any.\<close>

definition state_at :: "'a HighResDEMGen \<Rightarrow> coord \<Rightarrow> BlockState option" where
  "state_at e c = map_option (store e) (map_of (block_grid_tracker e) c)"


subsection \<open>Derived predicates on the grid\<close>

text \<open>The tracker key of the cell with index pair \<open>(x, y)\<close>: \<open>(x_c, y_c)\<close> in the source.\<close>

definition local_key :: "int \<Rightarrow> int \<times> int \<Rightarrow> coord" where
  "local_key bs p = (fst p * bs, snd p * bs)"


text \<open>The index pairs of the window: both loops run over \<open>- n - 1, \<dots>, n + 1\<close>.\<close>

definition offsets :: "int \<Rightarrow> (int \<times> int) set" where
  "offsets n = {- n - 1..n + 1} \<times> {- n - 1..n + 1}"

text \<open>
  What the loops maintain for the cells \<open>D\<close> visited so far: the tracker has exactly
  their keys, once each; the world map points into them; every reference is allocated.
\<close>

definition grid_part ::
  "int \<Rightarrow> (int \<times> int) set \<Rightarrow> (coord \<times> ref) list \<Rightarrow> (coord \<times> coord) list \<Rightarrow> ref \<Rightarrow> bool" where
  "grid_part bs D tr mp nr \<longleftrightarrow>
     fst ` set tr = local_key bs ` D \<and> distinct (map fst tr) \<and>
     (\<forall>w k. map_of mp w = Some k \<longrightarrow> k \<in> local_key bs ` D) \<and>
     (\<forall>k r. map_of tr k = Some r \<longrightarrow> r < nr)"

definition grid_inv :: "'a HighResDEMGen \<Rightarrow> bool" where
  "grid_inv e \<longleftrightarrow>
     0 \<le> num_blocks (settings e) \<and> block_size (settings e) \<noteq> 0 \<and>
     grid_part (block_size (settings e)) (offsets (num_blocks (settings e)))
       (block_grid_tracker e) (map_grid_block2coords e) (next_ref e)"






section \<open>The raster buffer\<close>

text \<open>
  A slice \<^verbatim>\<open>start:stop\<close> with step one; an omitted bound is \<open>None\<close>. A bound is
  normalised as Python does: a negative bound counts from the end, and every bound is
  clamped to the extent of the axis. The pair returned is the half-open index range
  the slice selects (empty when the bounds cross).
\<close>

type_synonym slice = "int option \<times> int option"

definition slice_index :: "int \<Rightarrow> nat \<Rightarrow> int" where
  "slice_index i n = (if i < 0 then max (i + int n) 0 else min i (int n))"

definition slice_bounds :: "slice \<Rightarrow> nat \<Rightarrow> int \<times> int" where
  "slice_bounds sl n =
     (let lo = (case fst sl of None \<Rightarrow> 0 | Some i \<Rightarrow> slice_index i n);
          hi = (case snd sl of None \<Rightarrow> int n | Some j \<Rightarrow> slice_index j n)
      in (lo, max lo hi))"

definition in_range :: "int \<times> int \<Rightarrow> int \<Rightarrow> bool" where
  "in_range b i \<longleftrightarrow> fst b \<le> i \<and> i < snd b"

text \<open>\<^verbatim>\<open>a[sx, sy]\<close> read as a value: the selected block, re-indexed from zero.\<close>

definition getitem :: "'a ndarray \<Rightarrow> slice \<Rightarrow> slice \<Rightarrow> 'a ndarray" where
  "getitem a sx sy =
     (let bx = slice_bounds sx (shape0 a); by = slice_bounds sy (shape1 a)
      in \<lparr>shape0 = nat (snd bx - fst bx), shape1 = nat (snd by - fst by),
          elems = (\<lambda>i j. elems a (fst bx + i) (fst by + j))\<rparr>)"

text \<open>\<^verbatim>\<open>a[sx, sy] = v\<close> for a scalar \<open>v\<close>.\<close>

definition setitem_scalar :: "'a ndarray \<Rightarrow> slice \<Rightarrow> slice \<Rightarrow> 'a \<Rightarrow> 'a ndarray" where
  "setitem_scalar a sx sy v =
     (let bx = slice_bounds sx (shape0 a); by = slice_bounds sy (shape1 a)
      in a\<lparr>elems := (\<lambda>i j. if in_range bx i \<and> in_range by j then v else elems a i j)\<rparr>)"

text \<open>
  numpy broadcasts a two-dimensional value to the selected block when each of its
  extents equals the block's or is one; otherwise the assignment raises
  \<^verbatim>\<open>ValueError\<close> and writes nothing.
\<close>

definition broadcastable :: "nat \<Rightarrow> nat \<Rightarrow> bool" where
  "broadcastable have want \<longleftrightarrow> have = want \<or> have = 1"

definition broadcast_elem :: "'a ndarray \<Rightarrow> int \<Rightarrow> int \<Rightarrow> 'a" where
  "broadcast_elem v i j = elems v (if shape0 v = 1 then 0 else i) (if shape1 v = 1 then 0 else j)"

text \<open>
  \<^verbatim>\<open>a[sx, sy] = v\<close> for an array \<open>v\<close>. The value is a copy: numpy gives the result
  of copying through a temporary when source and destination overlap.
\<close>

definition setitem_array :: "'a ndarray \<Rightarrow> slice \<Rightarrow> slice \<Rightarrow> 'a ndarray \<Rightarrow> error + 'a ndarray" where
  "setitem_array a sx sy v =
     (let bx = slice_bounds sx (shape0 a); by = slice_bounds sy (shape1 a)
      in if broadcastable (shape0 v) (nat (snd bx - fst bx)) \<and>
            broadcastable (shape1 v) (nat (snd by - fst by))
         then Inr (a\<lparr>elems := (\<lambda>i j. if in_range bx i \<and> in_range by j
                                        then broadcast_elem v (i - fst bx) (j - fst by)
                                        else elems a i j)\<rparr>)
         else Inl ValueError)"

text \<open>\<^verbatim>\<open>a[sx, sy] += v\<close> for an array \<open>v\<close>; the addition is the element type's.\<close>

definition iadd_array :: "'a::plus ndarray \<Rightarrow> slice \<Rightarrow> slice \<Rightarrow> 'a ndarray \<Rightarrow> error + 'a ndarray" where
  "iadd_array a sx sy v =
     (let bx = slice_bounds sx (shape0 a); by = slice_bounds sy (shape1 a)
      in if broadcastable (shape0 v) (nat (snd bx - fst bx)) \<and>
            broadcastable (shape1 v) (nat (snd by - fst by))
         then Inr (a\<lparr>elems := (\<lambda>i j. if in_range bx i \<and> in_range by j
                                        then elems a i j + broadcast_elem v (i - fst bx) (j - fst by)
                                        else elems a i j)\<rparr>)
         else Inl ValueError)"

text \<open>
  \<^verbatim>\<open>shift_dem\<close> on the buffer. The four range variables of an axis are chosen by
  the sign of the shift, as in the source; \<open>x_max_s = -x_shift\<close> and \<open>x_max_t = x_shift\<close>
  are negative slice bounds, which count from the end.
\<close>

definition shift_dem_buffer :: "'a::zero ndarray \<Rightarrow> int \<times> int \<Rightarrow> error + 'a ndarray" where
  "shift_dem_buffer a pixel_shift =
     (let x_shift = fst pixel_shift; y_shift = snd pixel_shift
      in if x_shift > int (shape0 a) \<or> y_shift > int (shape1 a)
         then Inr (setitem_scalar a (None, None) (None, None) 0)
         else
           let (x_min_s, x_max_s, x_min_t, x_max_t) =
                 (if x_shift > 0 then (0, - x_shift, x_shift, int (shape0 a))
                  else if x_shift = 0 then (0, int (shape0 a), 0, int (shape0 a))
                  else (- x_shift, int (shape0 a), 0, x_shift));
               (y_min_s, y_max_s, y_min_t, y_max_t) =
                 (if y_shift > 0 then (0, - y_shift, y_shift, int (shape1 a))
                  else if y_shift = 0 then (0, int (shape1 a), 0, int (shape1 a))
                  else (- y_shift, int (shape1 a), 0, y_shift))
           in case setitem_array a (Some x_min_t, Some x_max_t) (Some y_min_t, Some y_max_t)
                     (getitem a (Some x_min_s, Some x_max_s) (Some y_min_s, Some y_max_s)) of
                Inl err \<Rightarrow> Inl err
              | Inr a1 \<Rightarrow>
                  let a2 = (if x_shift < 0 then setitem_scalar a1 (Some x_max_t, None) (None, None) 0
                            else if x_shift > 0 then setitem_scalar a1 (None, Some x_min_t) (None, None) 0
                            else a1);
                      a3 = (if y_shift < 0 then setitem_scalar a2 (None, None) (Some y_max_t, None) 0
                            else if y_shift > 0 then setitem_scalar a2 (None, None) (None, Some y_min_t) 0
                            else a2)
                  in Inr a3)"

definition shift_dem :: "'a::zero HighResDEMGen \<Rightarrow> int \<times> int \<Rightarrow> 'a HighResDEMGen result" where
  "shift_dem e pixel_shift =
     (case shift_dem_buffer (high_res_dem e) pixel_shift of
        Inl err \<Rightarrow> Raise err e
      | Inr a \<Rightarrow> Ok (e\<lparr>high_res_dem := a\<rparr>))"

section \<open>Crater metadata and collection\<close>

text \<open>
  The bounding box handed to the crater sampler. The coordinates are integers here, so
  the \<^verbatim>\<open>int(...)\<close> around each bound is the identity.
\<close>

record BoundingBox =
  x_min :: int
  x_max :: int
  y_min :: int
  y_max :: int

definition crater_region :: "'a HighResDEMGen \<Rightarrow> BoundingBox" where
  "crater_region e =
     (let n = num_blocks (settings e); bs = block_size (settings e); c = current_block_coord e
      in \<lparr>x_min = fst c - (n + 2) * bs, x_max = fst c + (n + 2) * bs,
          y_min = snd c - (n + 2) * bs, y_max = snd c + (n + 2) * bs\<rparr>)"

text \<open>
  \<^verbatim>\<open>generate_craters_metadata\<close>. The sampler and the crater database belong to
  \<^verbatim>\<open>crater_gen\<close>, which is not part of the module; \<open>check_block_exists region coords\<close>
  stands for the answer of \<^verbatim>\<open>crater_db.check_block_exists(coords)\<close> once
  \<^verbatim>\<open>sample_craters_by_region(region)\<close> has run. The loop visits the keys of the
  world map in insertion order and overwrites the metadata flag with that answer.
\<close>

definition metadata_cell :: "(coord \<Rightarrow> bool) \<Rightarrow> coord \<Rightarrow> 'a HighResDEMGen \<Rightarrow> 'a HighResDEMGen result" where
  "metadata_cell exists coords e =
     (case map_of (map_grid_block2coords e) coords of
        None \<Rightarrow> Raise KeyError e
      | Some local_coords \<Rightarrow>
          (case map_of (block_grid_tracker e) local_coords of
             None \<Rightarrow> Raise KeyError e
           | Some r \<Rightarrow> Ok (e\<lparr>store := (store e)(r := (store e r)\<lparr>has_crater_metadata := exists coords\<rparr>)\<rparr>)))"

definition generate_craters_metadata ::
  "(BoundingBox \<Rightarrow> coord \<Rightarrow> bool) \<Rightarrow> 'a HighResDEMGen \<Rightarrow> 'a HighResDEMGen result" where
  "generate_craters_metadata check_block_exists e =
     for_each (metadata_cell (check_block_exists (crater_region e)))
       (map fst (map_grid_block2coords e)) e"

text \<open>The slice of the buffer that belongs to a local coordinate, along one axis.\<close>

definition tile_slice :: "HighResDEMGenCfg \<Rightarrow> int \<Rightarrow> int \<Rightarrow> slice" where
  "tile_slice cfg offset c =
     (Some (py_int (real_of_int c / resolution cfg) + offset),
      Some (py_int (real_of_int (c + block_size cfg) / resolution cfg) + offset))"

text \<open>
  The bodies of the two loops of \<^verbatim>\<open>collect_terrain_data\<close>. A result is the pair of
  the world anchor and a raster (for a crater result the raster is \<^verbatim>\<open>data[0]\<close>).
  The lookup of the anchor comes first and raises \<^verbatim>\<open>KeyError\<close> when the anchor is
  not in the map.
\<close>

definition collect_crater :: "int \<Rightarrow> coord \<times> 'a ndarray \<Rightarrow> 'a::plus HighResDEMGen \<Rightarrow> 'a HighResDEMGen result" where
  "collect_crater offset res e =
     (case map_of (map_grid_block2coords e) (fst res) of
        None \<Rightarrow> Raise KeyError e
      | Some (x_c, y_c) \<Rightarrow>
          (case iadd_array (high_res_dem e) (tile_slice (settings e) offset x_c)
                  (tile_slice (settings e) offset y_c) (snd res) of
             Inl err \<Rightarrow> Raise err e
           | Inr dem \<Rightarrow>
               (case map_of (block_grid_tracker e) (x_c, y_c) of
                  None \<Rightarrow> Raise KeyError (e\<lparr>high_res_dem := dem\<rparr>)
                | Some r \<Rightarrow>
                    Ok (e\<lparr>high_res_dem := dem,
                          store := (store e)(r := (store e r)\<lparr>has_crater_data := True\<rparr>)\<rparr>))))"

definition collect_terrain :: "int \<Rightarrow> coord \<times> 'a ndarray \<Rightarrow> 'a::plus HighResDEMGen \<Rightarrow> 'a HighResDEMGen result" where
  "collect_terrain offset res e =
     (case map_of (map_grid_block2coords e) (fst res) of
        None \<Rightarrow> Raise KeyError e
      | Some (x_c, y_c) \<Rightarrow>
          (case iadd_array (high_res_dem e) (tile_slice (settings e) offset x_c)
                  (tile_slice (settings e) offset y_c) (snd res) of
             Inl err \<Rightarrow> Raise err e
           | Inr dem \<Rightarrow>
               (case map_of (block_grid_tracker e) (x_c, y_c) of
                  None \<Rightarrow> Raise KeyError (e\<lparr>high_res_dem := dem\<rparr>)
                | Some r \<Rightarrow>
                    Ok (e\<lparr>high_res_dem := dem,
                          store := (store e)(r := (store e r)\<lparr>has_terrain_data := True\<rparr>)\<rparr>))))"

text \<open>
  \<^verbatim>\<open>collect_terrain_data\<close>; the two arguments are what \<^verbatim>\<open>collect_results()\<close> of the
  crater pool and of the interpolation pool return. The offset divides by the
  resolution first, so a zero resolution raises before any result is read.
\<close>

definition raster_offset :: "HighResDEMGenCfg \<Rightarrow> int" where
  "raster_offset cfg =
     py_int (real_of_int ((num_blocks cfg + 1) * block_size cfg) / resolution cfg)"

definition collect_terrain_data ::
  "'a::plus HighResDEMGen \<Rightarrow> (coord \<times> 'a ndarray) list \<Rightarrow> (coord \<times> 'a ndarray) list \<Rightarrow> 'a HighResDEMGen result" where
  "collect_terrain_data e crater_results terrain_results =
     (if resolution (settings e) = 0 then Raise ZeroDivisionError e
      else
        let offset = raster_offset (settings e)
        in case for_each (collect_crater offset) crater_results e of
             Raise err e1 \<Rightarrow> Raise err e1
           | Ok e1 \<Rightarrow> for_each (collect_terrain offset) terrain_results e1)"

section \<open>Coarse DEM patches\<close>

text \<open>
  \<^verbatim>\<open>get_low_res_dem_offset\<close> stores the centre pixel of the coarse DEM (its shape
  halved with \<^verbatim>\<open>//\<close>), the resolution ratio and the block size in coarse pixels.
  A float division by zero raises after the assignments made before it.
\<close>

definition get_low_res_dem_offset :: "'a HighResDEMGen \<Rightarrow> 'a HighResDEMGen result" where
  "get_low_res_dem_offset e =
     (let e1 = e\<lparr>lr_dem_px_offset := (int (shape0 (low_res_dem e)) div 2, int (shape1 (low_res_dem e)) div 2)\<rparr>
      in if resolution (settings e) = 0 then Raise ZeroDivisionError e1
         else
           let e2 = e1\<lparr>lr_dem_ratio := source_resolution (settings e) / resolution (settings e)\<rparr>
           in if source_resolution (settings e) = 0 then Raise ZeroDivisionError e2
              else Ok (e2\<lparr>lr_dem_block_size :=
                         py_int (real_of_int (block_size (settings e)) / source_resolution (settings e))\<rparr>))"



section \<open>The dispatcher\<close>

text \<open>
  Python's \<^verbatim>\<open>min(iterable, key=...)\<close> keeps the first element and replaces it only
  by an element whose key is strictly smaller; on an empty iterable it raises
  \<^verbatim>\<open>ValueError\<close>.
\<close>

fun py_min_from :: "('a \<Rightarrow> 'k::linorder) \<Rightarrow> 'a \<Rightarrow> 'a list \<Rightarrow> 'a" where
  "py_min_from key best [] = best"
| "py_min_from key best (x # xs) = py_min_from key (if key x < key best then x else best) xs"

definition py_min :: "('a \<Rightarrow> 'k::linorder) \<Rightarrow> 'a list \<Rightarrow> error + 'a" where
  "py_min key xs = (case xs of [] \<Rightarrow> Inl ValueError | x # rest \<Rightarrow> Inr (py_min_from key x rest))"

text \<open>
  The workers are represented by their input queues, each a list of jobs, as the
  dispatcher finds them when it reads the lengths: the reads of \<^verbatim>\<open>qsize()\<close> are
  taken from one snapshot, and the workers do not consume between them.
\<close>

definition get_shortest_queue_index :: "'j list list \<Rightarrow> error + nat" where
  "get_shortest_queue_index workers =
     py_min (\<lambda>i. length (workers ! i)) [0..<length workers]"

text \<open>
  One iteration of the loop of \<^verbatim>\<open>dispatch_jobs\<close> for a job read from the intake
  queue: a \<^verbatim>\<open>None\<close> payload is the shutdown signal and routes nothing; any other
  job is appended to the input queue of the chosen worker (\<^verbatim>\<open>put\<close> waits while that
  queue is full; the choice is made before). The result is the chosen index, if any,
  and the queues afterwards.
\<close>

definition dispatch_job :: "coord \<times> 'd option \<Rightarrow> (coord \<times> 'd) list list \<Rightarrow> error + (nat option \<times> (coord \<times> 'd) list list)" where
  "dispatch_job job workers =
     (case snd job of
        None \<Rightarrow> Inr (None, workers)
      | Some d \<Rightarrow>
          (case get_shortest_queue_index workers of
             Inl err \<Rightarrow> Inl err
           | Inr i \<Rightarrow> Inr (Some i, workers[i := workers ! i @ [(fst job, d)]])))"

section \<open>The interpolator configuration\<close>







section \<open>Notions used in the statements and proofs about the buffer\<close>

text \<open>The element at \<open>(i, j)\<close> of a buffer translated by \<open>(dx, dy)\<close> with zero fill.\<close>

definition shifted_elem :: "'a::zero ndarray \<Rightarrow> int \<Rightarrow> int \<Rightarrow> int \<Rightarrow> int \<Rightarrow> 'a" where
  "shifted_elem a dx dy i j =
     (if 0 \<le> i - dx \<and> i - dx < int (shape0 a) \<and> 0 \<le> j - dy \<and> j - dy < int (shape1 a)
      then elems a (i - dx) (j - dy) else 0)"

text \<open>The source and target slices of one axis, and the strip that is zeroed.\<close>

definition axis_source :: "int \<Rightarrow> nat \<Rightarrow> slice" where
  "axis_source d n = (if d > 0 then (Some 0, Some (- d)) else if d = 0 then (Some 0, Some (int n))
                      else (Some (- d), Some (int n)))"

definition axis_target :: "int \<Rightarrow> nat \<Rightarrow> slice" where
  "axis_target d n = (if d > 0 then (Some d, Some (int n)) else if d = 0 then (Some 0, Some (int n))
                      else (Some 0, Some d))"

definition axis_strip :: "int \<Rightarrow> nat \<Rightarrow> int \<times> int" where
  "axis_strip d n = (if d < 0 then slice_bounds (Some d, None) n
                     else if d > 0 then slice_bounds (None, Some d) n else (0, 0))"

text \<open>The two zeroing steps that end \<^verbatim>\<open>shift_dem\<close>, for one axis each.\<close>

definition strip_x :: "int \<Rightarrow> 'a::zero ndarray \<Rightarrow> 'a ndarray" where
  "strip_x d a = (if d < 0 then setitem_scalar a (Some d, None) (None, None) 0
                  else if d > 0 then setitem_scalar a (None, Some d) (None, None) 0 else a)"

definition strip_y :: "int \<Rightarrow> 'a::zero ndarray \<Rightarrow> 'a ndarray" where
  "strip_y d a = (if d < 0 then setitem_scalar a (None, None) (Some d, None) 0
                  else if d > 0 then setitem_scalar a (None, None) (None, Some d) 0 else a)"

text \<open>
  The destination range, the source range and the zeroed strip of an axis of extent
  \<open>n\<close> for a shift \<open>d\<close> with \<open>\<bar>d\<bar> < n\<close>, as half-open index ranges.
\<close>

definition copy_dst :: "int \<Rightarrow> nat \<Rightarrow> int \<times> int" where
  "copy_dst d n = (if d > 0 then (d, int n) else if d < 0 then (0, int n + d) else (0, int n))"

definition copy_src :: "int \<Rightarrow> nat \<Rightarrow> int \<times> int" where
  "copy_src d n = (if d > 0 then (0, int n - d) else if d < 0 then (- d, int n) else (0, int n))"

definition zero_strip :: "int \<Rightarrow> nat \<Rightarrow> int \<times> int" where
  "zero_strip d n = (if d > 0 then (0, d) else if d < 0 then (int n + d, int n) else (0, 0))"

section \<open>Construction and reachable states\<close>

text \<open>\<^verbatim>\<open>np.zeros((r, c))\<close>.\<close>

definition zeros :: "nat \<Rightarrow> nat \<Rightarrow> 'a::zero ndarray" where
  "zeros r c = \<lparr>shape0 = r, shape1 = c, elems = (\<lambda>_ _. 0)\<rparr>"

text \<open>
  \<^verbatim>\<open>instantiate_high_res_dem\<close>: a square buffer of side
  \<open>int((num_blocks * 2 + 3) * block_size / resolution)\<close>; numpy refuses a negative
  extent with \<^verbatim>\<open>ValueError\<close>.
\<close>

definition instantiate_high_res_dem :: "'a::zero HighResDEMGen \<Rightarrow> 'a HighResDEMGen result" where
  "instantiate_high_res_dem e =
     (if resolution (settings e) = 0 then Raise ZeroDivisionError e
      else
        let s = py_int (real_of_int ((num_blocks (settings e) * 2 + 3) * block_size (settings e))
                        / resolution (settings e))
        in if s < 0 then Raise ValueError e
           else Ok (e\<lparr>high_res_dem := zeros (nat s) (nat s)\<rparr>))"

text \<open>
  \<^verbatim>\<open>build\<close>, without the collaborators and the worker pools it creates first: the
  grid, the buffer, the coarse-DEM constants, in the order of the source.
\<close>

definition build :: "'a::zero HighResDEMGen \<Rightarrow> 'a HighResDEMGen result" where
  "build e =
     (case instantiate_high_res_dem (build_block_grid e) of
        Raise err e1 \<Rightarrow> Raise err e1
      | Ok e1 \<Rightarrow> get_low_res_dem_offset e1)"

text \<open>
  \<^verbatim>\<open>HighResDEMGen.__init__\<close>: the window is centred at \<open>(0, 0)\<close> and \<^verbatim>\<open>build\<close>
  runs. The attributes that \<^verbatim>\<open>build\<close> assigns do not exist before it; the record
  holds empty dicts, an empty store and zeros in their place.
\<close>

definition init :: "'a::zero ndarray \<Rightarrow> HighResDEMGenCfg \<Rightarrow> 'a HighResDEMGen result" where
  "init low cfg =
     build \<lparr>settings = cfg, store = (\<lambda>_. empty_state), next_ref = 0,
            block_grid_tracker = [], map_grid_block2coords = [],
            current_block_coord = (0, 0), high_res_dem = zeros 0 0, low_res_dem = low,
            lr_dem_px_offset = (0, 0), lr_dem_ratio = 0, lr_dem_block_size = 0\<rparr>"


text \<open>The state a method leaves behind, whether it returned or raised.\<close>

fun result_state :: "'s result \<Rightarrow> 's" where
  "result_state (Ok s) = s"
| "result_state (Raise err s) = s"

text \<open>
  Between two states the grid is the same and no state dict lost a raster flag; with
  \<open>ok\<close>, none lost the metadata flag either.
\<close>

definition evolves :: "bool \<Rightarrow> 'a HighResDEMGen \<Rightarrow> 'a HighResDEMGen \<Rightarrow> bool" where
  "evolves ok e e' \<longleftrightarrow>
     settings e' = settings e \<and> block_grid_tracker e' = block_grid_tracker e \<and>
     map_grid_block2coords e' = map_grid_block2coords e \<and> next_ref e' = next_ref e \<and>
     (\<forall>r. (has_crater_data (store e r) \<longrightarrow> has_crater_data (store e' r)) \<and>
          (has_terrain_data (store e r) \<longrightarrow> has_terrain_data (store e' r)) \<and>
          (ok \<longrightarrow> has_crater_metadata (store e r) \<longrightarrow> has_crater_metadata (store e' r)))"


section \<open>A concrete engine\<close>

text \<open>
  The configuration of the end-to-end scenarios: one block around the centre, blocks
  of ten units, a fine pixel of one unit and a coarse pixel of five, over a coarse DEM
  of four by four zeros. The buffer is fifty by fifty.
\<close>

definition demo_cfg :: HighResDEMGenCfg where
  "demo_cfg = \<lparr>num_blocks = 1, block_size = 10, resolution = 1, source_resolution = 5,
     interpolation_padding = 2\<rparr>"

definition demo_blank :: "real HighResDEMGen" where
  "demo_blank = \<lparr>settings = demo_cfg, store = (\<lambda>_. empty_state), next_ref = 0,
     block_grid_tracker = [], map_grid_block2coords = [],
     current_block_coord = (0, 0), high_res_dem = zeros 0 0, low_res_dem = zeros 4 4,
     lr_dem_px_offset = (0, 0), lr_dem_ratio = 0, lr_dem_block_size = 0\<rparr>"

definition demo :: "real HighResDEMGen" where
  "demo = (build_block_grid demo_blank)\<lparr>high_res_dem := zeros 50 50,
     lr_dem_px_offset := (2, 2), lr_dem_ratio := 5, lr_dem_block_size := 2\<rparr>"

text \<open>Four worker queues holding one, none, one and no job.\<close>

definition demo_queues :: "(coord \<times> nat) list list" where
  "demo_queues = [[((0, 0), 3)], [], [((10, 0), 4)], []]"

text \<open>
  The demo engine after one crater raster for the centre tile was collected, and after
  the window then moved one block in \<open>x\<close>.
\<close>

definition demo_collected :: "real HighResDEMGen" where
  "demo_collected = result_state (collect_terrain_data demo [((0, 0), zeros 10 10)] [])"


text \<open>The attributes that the loops of \<^verbatim>\<open>build_block_grid\<close> do not assign.\<close>

definition same_frame :: "'a HighResDEMGen \<Rightarrow> 'a HighResDEMGen \<Rightarrow> bool" where
  "same_frame e e' \<longleftrightarrow> settings e' = settings e \<and> current_block_coord e' = current_block_coord e \<and>
     high_res_dem e' = high_res_dem e \<and> low_res_dem e' = low_res_dem e"



section \<open>Loops over the window\<close>

lemma fold_ghost:
  assumes "P S s" and "\<And>x S s. x \<in> set xs \<Longrightarrow> P S s \<Longrightarrow> P (insert x S) (f x s)"
  shows "P (S \<union> set xs) (fold f xs s)"
  using assms
proof (induction xs arbitrary: S s)
  case Nil
  then show ?case by simp
next
  case (Cons a xs)
  have step: "P (insert a S) (f a s)"
    by (rule Cons.prems(2)) (simp, fact Cons.prems(1))
  have "P (insert a S \<union> set xs) (fold f xs (f a s))"
  proof (rule Cons.IH [OF step])
    fix x S' s'
    assume "x \<in> set xs" and "P S' s'"
    then show "P (insert x S') (f x s')"
      using Cons.prems(2) [of x S' s'] by simp
  qed
  moreover have "insert a S \<union> set xs = S \<union> set (a # xs)" by auto
  ultimately show ?case by simp
qed

lemma for_each_ghost:
  assumes "P S s"
    and "\<And>x S s. x \<in> set xs \<Longrightarrow> P S s \<Longrightarrow> \<exists>s'. f x s = Ok s' \<and> P (insert x S) s'"
  shows "\<exists>s'. for_each f xs s = Ok s' \<and> P (S \<union> set xs) s'"
  using assms
proof (induction xs arbitrary: S s)
  case Nil
  then show ?case by simp
next
  case (Cons a xs)
  have "\<exists>s'. f a s = Ok s' \<and> P (insert a S) s'"
    by (rule Cons.prems(2)) (simp, fact Cons.prems(1))
  then obtain s1 where s1: "f a s = Ok s1" and p1: "P (insert a S) s1"
    by blast
  have "\<exists>s'. for_each f xs s1 = Ok s' \<and> P (insert a S \<union> set xs) s'"
  proof (rule Cons.IH [OF p1])
    fix x S' s'
    assume "x \<in> set xs" and "P S' s'"
    then show "\<exists>s''. f x s' = Ok s'' \<and> P (insert x S') s''"
      using Cons.prems(2) [of x S' s'] by simp
  qed
  then obtain s2 where s2: "for_each f xs s1 = Ok s2" and p2: "P (insert a S \<union> set xs) s2"
    by blast
  have eq: "insert a S \<union> set xs = S \<union> set (a # xs)" by auto
  show ?case
    using s1 s2 p2 unfolding eq by simp
qed


lemma grid_part_keys: "grid_part bs D tr mp nr \<Longrightarrow> fst ` set tr = local_key bs ` D"
  by (simp add: grid_part_def)


lemma grid_part_map: "grid_part bs D tr mp nr \<Longrightarrow> map_of mp w = Some k \<Longrightarrow> k \<in> local_key bs ` D"
  unfolding grid_part_def by blast

lemma grid_part_refs: "grid_part bs D tr mp nr \<Longrightarrow> map_of tr k = Some r \<Longrightarrow> r < nr"
  unfolding grid_part_def by blast



















lemma grid_inv_lookup:
  assumes "grid_inv e" and "k \<in> local_key (block_size (settings e)) ` offsets (num_blocks (settings e))"
  shows "\<exists>r. map_of (block_grid_tracker e) k = Some r \<and> r < next_ref e"
proof -
  have gp: "grid_part (block_size (settings e)) (offsets (num_blocks (settings e)))
       (block_grid_tracker e) (map_grid_block2coords e) (next_ref e)"
    using assms(1) by (simp add: grid_inv_def)
  have "k \<in> fst ` set (block_grid_tracker e)"
    using assms(2) grid_part_keys [OF gp] by simp
  then obtain r where r: "map_of (block_grid_tracker e) k = Some r"
    by (metis map_of_eq_None_iff not_Some_eq)
  then show ?thesis using grid_part_refs [OF gp r] by blast
qed

lemma grid_inv_map_lookup:
  assumes "grid_inv e" and "map_of (map_grid_block2coords e) w = Some k"
  shows "\<exists>r. map_of (block_grid_tracker e) k = Some r \<and> r < next_ref e"
proof -
  have gp: "grid_part (block_size (settings e)) (offsets (num_blocks (settings e)))
       (block_grid_tracker e) (map_grid_block2coords e) (next_ref e)"
    using assms(1) by (simp add: grid_inv_def)
  show ?thesis
    using grid_inv_lookup [OF assms(1) grid_part_map [OF gp assms(2)]] .
qed








section \<open>The concrete engine is a constructed engine\<close>

lemma build_cell_frame:
  "settings (build_cell x y e) = settings e"
  "current_block_coord (build_cell x y e) = current_block_coord e"
  "high_res_dem (build_cell x y e) = high_res_dem e"
  "low_res_dem (build_cell x y e) = low_res_dem e"
  by (simp_all add: build_cell_def Let_def)

lemma build_block_grid_frame: "same_frame e (build_block_grid e)"
proof -
  let ?R = "block_range (num_blocks (settings e))"
  have row: "same_frame e (fold (\<lambda>y. build_cell x y) ?R e')" if "same_frame e e'" for x e'
  proof -
    have "(\<lambda>S e''. same_frame e e'') ({} \<union> set ?R) (fold (\<lambda>y. build_cell x y) ?R e')"
      by (rule fold_ghost [where P = "\<lambda>S e''. same_frame e e''"])
        (use that in \<open>simp_all add: same_frame_def build_cell_frame\<close>)
    then show ?thesis by simp
  qed
  have "(\<lambda>S e''. same_frame e e'') ({} \<union> set ?R)
          (fold (\<lambda>x. fold (\<lambda>y. build_cell x y) ?R) ?R (e\<lparr>block_grid_tracker := [], map_grid_block2coords := []\<rparr>))"
    by (rule fold_ghost [where P = "\<lambda>S e''. same_frame e e''"])
      (simp add: same_frame_def, rule row, assumption)
  then show ?thesis by (simp add: build_block_grid_def)
qed

lemma demo_fields:
  "settings demo = demo_cfg" "high_res_dem demo = zeros 50 50" "low_res_dem demo = zeros 4 4"
  "current_block_coord demo = (0, 0)"
  using build_block_grid_frame [of demo_blank]
  by (simp_all add: demo_def same_frame_def demo_blank_def)




section \<open>Translating the raster buffer\<close>

lemma sb_zero: "slice_bounds (Some 0, Some (int n)) n = (0, int n)"
  by (simp add: slice_bounds_def slice_index_def Let_def max_def min_def)

lemma sb_all: "slice_bounds (None, None) n = (0, int n)"
  by (simp add: slice_bounds_def Let_def)

lemma shift_dem_buffer_reset:
  assumes "dx > int (shape0 a) \<or> dy > int (shape1 a)"
  shows "shift_dem_buffer a (dx, dy) = Inr (setitem_scalar a (None, None) (None, None) 0)"
  using assms by (simp add: shift_dem_buffer_def)


lemma in_range_simp: "in_range (lo, hi) i \<longleftrightarrow> lo \<le> i \<and> i < hi"
  by (simp add: in_range_def)

lemma broadcast_elem_in:
  "0 \<le> i \<Longrightarrow> i < int (shape0 v) \<Longrightarrow> 0 \<le> j \<Longrightarrow> j < int (shape1 v) \<Longrightarrow>
   broadcast_elem v i j = elems v i j"
proof -
  assume a: "0 \<le> i" "i < int (shape0 v)" "0 \<le> j" "j < int (shape1 v)"
  have "shape0 v = 1 \<Longrightarrow> i = 0" using a by simp
  moreover have "shape1 v = 1 \<Longrightarrow> j = 0" using a by simp
  ultimately show ?thesis by (auto simp: broadcast_elem_def)
qed

lemma setitem_array_same:
  assumes "slice_bounds sx (shape0 a) = (x0, x1)" and "slice_bounds sy (shape1 a) = (y0, y1)"
    and "shape0 v = nat (x1 - x0)" and "shape1 v = nat (y1 - y0)"
  shows "setitem_array a sx sy v =
     Inr (a\<lparr>elems := (\<lambda>i j. if x0 \<le> i \<and> i < x1 \<and> y0 \<le> j \<and> j < y1
                               then elems v (i - x0) (j - y0) else elems a i j)\<rparr>)"
proof -
  have "(\<lambda>i j. if in_range (x0, x1) i \<and> in_range (y0, y1) j
                then broadcast_elem v (i - x0) (j - y0) else elems a i j) =
        (\<lambda>i j. if x0 \<le> i \<and> i < x1 \<and> y0 \<le> j \<and> j < y1
                then elems v (i - x0) (j - y0) else elems a i j)"
    using assms(3,4) by (intro ext) (auto simp: in_range_simp broadcast_elem_in)
  then show ?thesis
    unfolding setitem_array_def Let_def assms(1,2) fst_conv snd_conv
    using assms(3,4) by (simp add: broadcastable_def)
qed

lemma getitem_bounds:
  assumes "slice_bounds sx (shape0 a) = (x0, x1)" and "slice_bounds sy (shape1 a) = (y0, y1)"
  shows "getitem a sx sy =
     \<lparr>shape0 = nat (x1 - x0), shape1 = nat (y1 - y0), elems = (\<lambda>i j. elems a (x0 + i) (y0 + j))\<rparr>"
  using assms by (simp add: getitem_def Let_def)

lemma axis_facts:
  assumes "d \<le> int n"
  shows "snd (slice_bounds (axis_target d n) n) - fst (slice_bounds (axis_target d n) n) =
         snd (slice_bounds (axis_source d n) n) - fst (slice_bounds (axis_source d n) n)"
    and "0 \<le> i \<Longrightarrow> i < int n \<Longrightarrow>
         in_range (slice_bounds (axis_target d n) n) i \<longleftrightarrow> 0 \<le> i - d \<and> i - d < int n"
    and "in_range (slice_bounds (axis_target d n) n) i \<Longrightarrow>
         fst (slice_bounds (axis_source d n) n) + (i - fst (slice_bounds (axis_target d n) n)) = i - d"
    and "0 \<le> i \<Longrightarrow> i < int n \<Longrightarrow>
         in_range (axis_strip d n) i \<longleftrightarrow> \<not> (0 \<le> i - d \<and> i - d < int n)"
  using assms
  by (auto simp: axis_target_def axis_source_def axis_strip_def slice_bounds_def slice_index_def
      in_range_def Let_def max_def min_def split: if_splits)


lemma shift_dem_buffer_axes:
  assumes "\<not> (dx > int (shape0 a) \<or> dy > int (shape1 a))"
  shows "shift_dem_buffer a (dx, dy) =
     (case setitem_array a (axis_target dx (shape0 a)) (axis_target dy (shape1 a))
             (getitem a (axis_source dx (shape0 a)) (axis_source dy (shape1 a))) of
        Inl err \<Rightarrow> Inl err
      | Inr a1 \<Rightarrow> Inr (strip_y dy (strip_x dx a1)))"
  using assms
  by (simp add: shift_dem_buffer_def axis_target_def axis_source_def strip_x_def strip_y_def Let_def
      split: sum.splits)

lemma strip_x_shape: "shape0 (strip_x d a) = shape0 a" "shape1 (strip_x d a) = shape1 a"
  by (simp_all add: strip_x_def setitem_scalar_def Let_def)

lemma strip_y_shape: "shape0 (strip_y d a) = shape0 a" "shape1 (strip_y d a) = shape1 a"
  by (simp_all add: strip_y_def setitem_scalar_def Let_def)

lemma strip_x_elems:
  "0 \<le> j \<Longrightarrow> j < int (shape1 a) \<Longrightarrow>
   elems (strip_x d a) i j = (if in_range (axis_strip d (shape0 a)) i then 0 else elems a i j)"
  by (cases "d < 0"; cases "0 < d")
    (auto simp: strip_x_def axis_strip_def setitem_scalar_def Let_def sb_all in_range_def)

lemma strip_y_elems:
  "0 \<le> i \<Longrightarrow> i < int (shape0 a) \<Longrightarrow>
   elems (strip_y d a) i j = (if in_range (axis_strip d (shape1 a)) j then 0 else elems a i j)"
  by (cases "d < 0"; cases "0 < d")
    (auto simp: strip_y_def axis_strip_def setitem_scalar_def Let_def sb_all in_range_def)

lemma shift_dem_buffer_elems:
  fixes a :: "'a::zero ndarray"
  shows "\<exists>a'. shift_dem_buffer a (dx, dy) = Inr a' \<and> shape0 a' = shape0 a \<and> shape1 a' = shape1 a \<and>
     (\<forall>i j. 0 \<le> i \<and> i < int (shape0 a) \<and> 0 \<le> j \<and> j < int (shape1 a) \<longrightarrow>
        elems a' i j = shifted_elem a dx dy i j)"
proof (cases "dx > int (shape0 a) \<or> dy > int (shape1 a)")
  case True
  then show ?thesis
    by (auto simp: shift_dem_buffer_reset setitem_scalar_def sb_all in_range_simp shifted_elem_def)
next
  case False
  then have le: "dx \<le> int (shape0 a)" "dy \<le> int (shape1 a)" by auto
  let ?n0 = "shape0 a" and ?n1 = "shape1 a"
  obtain tx0 tx1 where tx: "slice_bounds (axis_target dx ?n0) ?n0 = (tx0, tx1)" by fastforce
  obtain ty0 ty1 where ty: "slice_bounds (axis_target dy ?n1) ?n1 = (ty0, ty1)" by fastforce
  obtain sx0 sx1 where sx: "slice_bounds (axis_source dx ?n0) ?n0 = (sx0, sx1)" by fastforce
  obtain sy0 sy1 where sy: "slice_bounds (axis_source dy ?n1) ?n1 = (sy0, sy1)" by fastforce
  have lenx: "tx1 - tx0 = sx1 - sx0" using axis_facts(1) [OF le(1)] tx sx by simp
  have leny: "ty1 - ty0 = sy1 - sy0" using axis_facts(1) [OF le(2)] ty sy by simp
  let ?v = "getitem a (axis_source dx ?n0) (axis_source dy ?n1)"
  have v: "?v = \<lparr>shape0 = nat (sx1 - sx0), shape1 = nat (sy1 - sy0),
                 elems = (\<lambda>i j. elems a (sx0 + i) (sy0 + j))\<rparr>"
    using sx sy by (rule getitem_bounds)
  let ?a1 = "a\<lparr>elems := (\<lambda>i j. if tx0 \<le> i \<and> i < tx1 \<and> ty0 \<le> j \<and> j < ty1
                               then elems ?v (i - tx0) (j - ty0) else elems a i j)\<rparr>"
  have set: "setitem_array a (axis_target dx ?n0) (axis_target dy ?n1) ?v = Inr ?a1"
    using tx ty by (rule setitem_array_same) (simp_all add: v lenx leny)
  let ?a' = "strip_y dy (strip_x dx ?a1)"
  have res: "shift_dem_buffer a (dx, dy) = Inr ?a'"
    using shift_dem_buffer_axes [OF False] set by simp
  have shape: "shape0 ?a' = shape0 a" "shape1 ?a' = shape1 a"
    by (simp_all add: strip_x_shape strip_y_shape)
  have el: "elems ?a' i j = shifted_elem a dx dy i j"
    if ij: "0 \<le> i" "i < int (shape0 a)" "0 \<le> j" "j < int (shape1 a)" for i j
  proof -
    have tgx: "tx0 \<le> i \<and> i < tx1 \<longleftrightarrow> 0 \<le> i - dx \<and> i - dx < int ?n0"
      using axis_facts(2) [OF le(1) ij(1,2)] tx by (simp add: in_range_def)
    have tgy: "ty0 \<le> j \<and> j < ty1 \<longleftrightarrow> 0 \<le> j - dy \<and> j - dy < int ?n1"
      using axis_facts(2) [OF le(2) ij(3,4)] ty by (simp add: in_range_def)
    have srx: "tx0 \<le> i \<and> i < tx1 \<Longrightarrow> sx0 + (i - tx0) = i - dx"
      using axis_facts(3) [OF le(1), of i] tx sx by (simp add: in_range_def)
    have sry: "ty0 \<le> j \<and> j < ty1 \<Longrightarrow> sy0 + (j - ty0) = j - dy"
      using axis_facts(3) [OF le(2), of j] ty sy by (simp add: in_range_def)
    have zx: "in_range (axis_strip dx ?n0) i \<longleftrightarrow> \<not> (0 \<le> i - dx \<and> i - dx < int ?n0)"
      using axis_facts(4) [OF le(1) ij(1,2)] .
    have zy: "in_range (axis_strip dy ?n1) j \<longleftrightarrow> \<not> (0 \<le> j - dy \<and> j - dy < int ?n1)"
      using axis_facts(4) [OF le(2) ij(3,4)] .
    have "elems ?a' i j =
        (if in_range (axis_strip dy ?n1) j then 0
         else if in_range (axis_strip dx ?n0) i then 0 else elems ?a1 i j)"
      using ij by (simp add: strip_y_elems strip_x_elems strip_x_shape)
    also have "\<dots> = shifted_elem a dx dy i j"
    proof (cases "(0 \<le> i - dx \<and> i - dx < int ?n0) \<and> (0 \<le> j - dy \<and> j - dy < int ?n1)")
      case True
      then have "tx0 \<le> i \<and> i < tx1" "ty0 \<le> j \<and> j < ty1" using tgx tgy by blast+
      then have e1: "sx0 + (i - tx0) = i - dx" and e2: "sy0 + (j - ty0) = j - dy"
        using srx sry by blast+
      have "elems ?a1 i j = elems a (sx0 + (i - tx0)) (sy0 + (j - ty0))"
        using \<open>tx0 \<le> i \<and> i < tx1\<close> \<open>ty0 \<le> j \<and> j < ty1\<close> by (simp add: v)
      then have "elems ?a1 i j = elems a (i - dx) (j - dy)"
        by (simp only: e1 e2)
      then show ?thesis using True zx zy by (simp add: shifted_elem_def)
    next
      case False
      then show ?thesis using zx zy by (auto simp: shifted_elem_def)
    qed
    finally show ?thesis .
  qed
  show ?thesis using res shape el by blast
qed


lemma shift_dem_buffer_zero: "shift_dem_buffer a (0, 0) = Inr a"
proof -
  let ?v = "\<lparr>shape0 = shape0 a, shape1 = shape1 a, elems = (\<lambda>i j. elems a (0 + i) (0 + j))\<rparr>"
  have f: "(\<lambda>i j. if in_range (0, int (shape0 a)) i \<and> in_range (0, int (shape1 a)) j
                  then broadcast_elem ?v (i - 0) (j - 0) else elems a i j) = elems a"
    by (intro ext) (auto simp: in_range_def broadcast_elem_in)
  have g: "getitem a (Some 0, Some (int (shape0 a))) (Some 0, Some (int (shape1 a))) = ?v"
    unfolding getitem_def Let_def sb_zero fst_conv snd_conv by simp
  have "setitem_array a (Some 0, Some (int (shape0 a))) (Some 0, Some (int (shape1 a))) ?v = Inr a"
    unfolding setitem_array_def Let_def sb_zero fst_conv snd_conv f
    by (simp add: broadcastable_def)
  then show ?thesis
    unfolding shift_dem_buffer_def Let_def fst_conv snd_conv
    by (simp add: g del: add_0 add.left_neutral)
qed

lemma shifted_elem_dst:
  assumes "0 \<le> i" "i < int n0" "0 \<le> j" "j < int n1" "\<bar>dx\<bar> < int n0" "\<bar>dy\<bar> < int n1"
  shows "(0 \<le> i - dx \<and> i - dx < int n0 \<and> 0 \<le> j - dy \<and> j - dy < int n1) \<longleftrightarrow>
         (in_range (copy_dst dx n0) i \<and> in_range (copy_dst dy n1) j)"
    and "in_range (copy_dst dx n0) i \<longleftrightarrow> in_range (copy_src dx n0) (i - dx)"
    and "in_range (copy_dst dy n1) j \<longleftrightarrow> in_range (copy_src dy n1) (j - dy)"
    and "in_range (copy_dst dx n0) i \<longleftrightarrow> \<not> in_range (zero_strip dx n0) i"
    and "in_range (copy_dst dy n1) j \<longleftrightarrow> \<not> in_range (zero_strip dy n1) j"
  using assms by (auto simp: copy_dst_def copy_src_def zero_strip_def in_range_def)

text \<open>
  Claim C3. For every integer pixel shift \<open>(dx, dy)\<close> with \<open>\<bar>dx\<bar> \<ge> S\<close> or \<open>\<bar>dy\<bar> \<ge> S\<close>,
  where \<open>S\<close> is the extent of the buffer along that axis, \<^verbatim>\<open>shift_dem\<close> returns and
  every element of the buffer is zero afterwards. (The source compares the signed
  shift with \<^verbatim>\<open>>\<close>; a shift of exactly \<open>S\<close> and every negative shift take the copying
  branch, where the copied block is empty and the zeroed strip is the whole axis.)
\<close>

theorem shift_dem_out_of_range_zero:
  fixes e :: "'a::zero HighResDEMGen"
  assumes "\<bar>dx\<bar> \<ge> int (shape0 (high_res_dem e)) \<or> \<bar>dy\<bar> \<ge> int (shape1 (high_res_dem e))"
  shows "\<exists>e'. shift_dem e (dx, dy) = Ok e' \<and>
           shape0 (high_res_dem e') = shape0 (high_res_dem e) \<and>
           shape1 (high_res_dem e') = shape1 (high_res_dem e) \<and>
           (\<forall>i j. 0 \<le> i \<and> i < int (shape0 (high_res_dem e)) \<and> 0 \<le> j \<and> j < int (shape1 (high_res_dem e))
              \<longrightarrow> elems (high_res_dem e') i j = 0)"
proof -
  obtain a' where a': "shift_dem_buffer (high_res_dem e) (dx, dy) = Inr a'"
    "shape0 a' = shape0 (high_res_dem e)" "shape1 a' = shape1 (high_res_dem e)"
    and el: "\<And>i j. 0 \<le> i \<and> i < int (shape0 (high_res_dem e)) \<and> 0 \<le> j \<and> j < int (shape1 (high_res_dem e))
        \<Longrightarrow> elems a' i j = shifted_elem (high_res_dem e) dx dy i j"
    using shift_dem_buffer_elems [of "high_res_dem e" dx dy] by blast
  have "elems a' i j = 0"
    if "0 \<le> i \<and> i < int (shape0 (high_res_dem e)) \<and> 0 \<le> j \<and> j < int (shape1 (high_res_dem e))" for i j
  proof -
    have "\<not> (0 \<le> i - dx \<and> i - dx < int (shape0 (high_res_dem e)) \<and>
             0 \<le> j - dy \<and> j - dy < int (shape1 (high_res_dem e)))"
      using assms that by linarith
    then have "shifted_elem (high_res_dem e) dx dy i j = 0"
      unfolding shifted_elem_def by (simp only: if_False)
    then show ?thesis using el [OF that] by simp
  qed
  then show ?thesis using a' by (simp add: shift_dem_def)
qed

theorem shift_dem_out_of_range_zero_witness:
  "(\<bar>- 50\<bar> \<ge> int (shape0 (high_res_dem demo)) \<or> \<bar>3\<bar> \<ge> int (shape1 (high_res_dem demo))) \<and>
   (\<exists>e'. shift_dem demo (- 50, 3) = Ok e' \<and> elems (high_res_dem e') 7 9 = 0)"
  using shift_dem_out_of_range_zero [of demo "- 50" 3]
  by (force simp: demo_fields zeros_def)

text \<open>
  Claim C4. For every integer pixel shift with \<open>\<bar>dx\<bar> < S\<close> and \<open>\<bar>dy\<bar> < S\<close>,
  \<^verbatim>\<open>shift_dem\<close> returns, and along each axis a shift \<open>d > 0\<close> copies the source range
  \<open>[0, S - d)\<close> to the destination range \<open>[d, S)\<close> and zeroes \<open>[0, d)\<close>; a shift
  \<open>d < 0\<close> copies \<open>[- d, S)\<close> to \<open>[0, S + d)\<close> and zeroes \<open>[S + d, S)\<close>; \<open>d = 0\<close>
  leaves the axis as it is. An element whose two indices are in the destination ranges
  is the old element \<open>d\<close> places before it on each axis, taken from the source ranges;
  every other element is zero. A shift by \<open>(0, 0)\<close> returns the engine unchanged.
\<close>

theorem shift_dem_in_range_copies:
  fixes e :: "'a::zero HighResDEMGen"
  assumes "\<bar>dx\<bar> < int (shape0 (high_res_dem e))" and "\<bar>dy\<bar> < int (shape1 (high_res_dem e))"
  shows "\<exists>e'. shift_dem e (dx, dy) = Ok e' \<and>
           shape0 (high_res_dem e') = shape0 (high_res_dem e) \<and>
           shape1 (high_res_dem e') = shape1 (high_res_dem e) \<and>
           (\<forall>i j. 0 \<le> i \<and> i < int (shape0 (high_res_dem e)) \<and> 0 \<le> j \<and> j < int (shape1 (high_res_dem e))
              \<longrightarrow>
              (in_range (copy_dst dx (shape0 (high_res_dem e))) i \<and>
               in_range (copy_dst dy (shape1 (high_res_dem e))) j \<longrightarrow>
                 in_range (copy_src dx (shape0 (high_res_dem e))) (i - dx) \<and>
                 in_range (copy_src dy (shape1 (high_res_dem e))) (j - dy) \<and>
                 elems (high_res_dem e') i j = elems (high_res_dem e) (i - dx) (j - dy)) \<and>
              (in_range (zero_strip dx (shape0 (high_res_dem e))) i \<or>
               in_range (zero_strip dy (shape1 (high_res_dem e))) j \<longrightarrow>
                 elems (high_res_dem e') i j = 0) \<and>
              (in_range (copy_dst dx (shape0 (high_res_dem e))) i \<or>
               in_range (zero_strip dx (shape0 (high_res_dem e))) i) \<and>
              (in_range (copy_dst dy (shape1 (high_res_dem e))) j \<or>
               in_range (zero_strip dy (shape1 (high_res_dem e))) j)) \<and>
           shift_dem e (0, 0) = Ok e"
proof -
  let ?a = "high_res_dem e"
  obtain a' where a': "shift_dem_buffer ?a (dx, dy) = Inr a'"
    "shape0 a' = shape0 ?a" "shape1 a' = shape1 ?a"
    and el: "\<And>i j. 0 \<le> i \<and> i < int (shape0 ?a) \<and> 0 \<le> j \<and> j < int (shape1 ?a)
        \<Longrightarrow> elems a' i j = shifted_elem ?a dx dy i j"
    using shift_dem_buffer_elems [of ?a dx dy] by blast
  let ?e' = "e\<lparr>high_res_dem := a'\<rparr>"
  have ok: "shift_dem e (dx, dy) = Ok ?e'"
    using a'(1) by (simp add: shift_dem_def)
  have z: "shift_dem e (0, 0) = Ok e"
    by (simp add: shift_dem_def shift_dem_buffer_zero)
  have pt: "(in_range (copy_dst dx (shape0 ?a)) i \<and> in_range (copy_dst dy (shape1 ?a)) j \<longrightarrow>
               in_range (copy_src dx (shape0 ?a)) (i - dx) \<and>
               in_range (copy_src dy (shape1 ?a)) (j - dy) \<and>
               elems (high_res_dem ?e') i j = elems ?a (i - dx) (j - dy)) \<and>
            (in_range (zero_strip dx (shape0 ?a)) i \<or> in_range (zero_strip dy (shape1 ?a)) j \<longrightarrow>
               elems (high_res_dem ?e') i j = 0) \<and>
            (in_range (copy_dst dx (shape0 ?a)) i \<or> in_range (zero_strip dx (shape0 ?a)) i) \<and>
            (in_range (copy_dst dy (shape1 ?a)) j \<or> in_range (zero_strip dy (shape1 ?a)) j)"
    if ij: "0 \<le> i \<and> i < int (shape0 ?a) \<and> 0 \<le> j \<and> j < int (shape1 ?a)" for i j
  proof -
    have ij': "0 \<le> i" "i < int (shape0 ?a)" "0 \<le> j" "j < int (shape1 ?a)" using ij by simp_all
    note d = shifted_elem_dst [OF ij' assms]
    have v: "elems a' i j =
              (if in_range (copy_dst dx (shape0 ?a)) i \<and> in_range (copy_dst dy (shape1 ?a)) j
               then elems ?a (i - dx) (j - dy) else 0)"
      unfolding el [OF ij] shifted_elem_def d(1) ..
    have h: "high_res_dem ?e' = a'" by simp
    show ?thesis
      unfolding h v using d(2-5) by auto
  qed
  have sh: "shape0 (high_res_dem ?e') = shape0 ?a" "shape1 (high_res_dem ?e') = shape1 ?a"
    using a'(2,3) by simp_all
  show ?thesis
  proof (intro exI [of _ ?e'] conjI allI impI)
    show "shift_dem e (dx, dy) = Ok ?e'" by (fact ok)
    show "shape0 (high_res_dem ?e') = shape0 ?a" by (fact sh(1))
    show "shape1 (high_res_dem ?e') = shape1 ?a" by (fact sh(2))
    show "shift_dem e (0, 0) = Ok e" by (fact z)
  qed (use pt in blast)+
qed

theorem shift_dem_in_range_copies_witness:
  "\<bar>- 10\<bar> < int (shape0 (high_res_dem demo)) \<and> \<bar>0\<bar> < int (shape1 (high_res_dem demo)) \<and>
   (\<exists>e'. shift_dem demo (- 10, 0) = Ok e' \<and>
      elems (high_res_dem e') 5 5 = elems (high_res_dem demo) 15 5 \<and>
      elems (high_res_dem e') 45 5 = 0)"
proof -
  have h: "\<bar>- 10\<bar> < int (shape0 (high_res_dem demo))" "\<bar>0\<bar> < int (shape1 (high_res_dem demo))"
    by (simp_all add: demo_fields zeros_def)
  obtain e' where e': "shift_dem demo (- 10, 0) = Ok e'"
    and el: "\<forall>i j. 0 \<le> i \<and> i < int (shape0 (high_res_dem demo)) \<and> 0 \<le> j \<and> j < int (shape1 (high_res_dem demo))
              \<longrightarrow>
              (in_range (copy_dst (- 10) (shape0 (high_res_dem demo))) i \<and>
               in_range (copy_dst 0 (shape1 (high_res_dem demo))) j \<longrightarrow>
                 in_range (copy_src (- 10) (shape0 (high_res_dem demo))) (i - - 10) \<and>
                 in_range (copy_src 0 (shape1 (high_res_dem demo))) (j - 0) \<and>
                 elems (high_res_dem e') i j = elems (high_res_dem demo) (i - - 10) (j - 0)) \<and>
              (in_range (zero_strip (- 10) (shape0 (high_res_dem demo))) i \<or>
               in_range (zero_strip 0 (shape1 (high_res_dem demo))) j \<longrightarrow>
                 elems (high_res_dem e') i j = 0) \<and>
              (in_range (copy_dst (- 10) (shape0 (high_res_dem demo))) i \<or>
               in_range (zero_strip (- 10) (shape0 (high_res_dem demo))) i) \<and>
              (in_range (copy_dst 0 (shape1 (high_res_dem demo))) j \<or>
               in_range (zero_strip 0 (shape1 (high_res_dem demo))) j)"
    using shift_dem_in_range_copies [OF h] by blast
  have "elems (high_res_dem e') 5 5 = elems (high_res_dem demo) 15 5"
    using el [rule_format, of 5 5]
    by (simp add: demo_fields zeros_def copy_dst_def in_range_def)
  moreover have "elems (high_res_dem e') 45 5 = 0"
    using el [rule_format, of 45 5]
    by (simp add: demo_fields zeros_def zero_strip_def in_range_def)
  ultimately show ?thesis using h e' by blast
qed

section \<open>What metadata regeneration and collection leave unchanged\<close>

lemma for_each_rel:
  assumes refl: "\<And>s. R s s" and trans: "\<And>a b c. R a b \<Longrightarrow> R b c \<Longrightarrow> R a c"
    and step: "\<And>x s. x \<in> set xs \<Longrightarrow> R s (result_state (f x s))"
  shows "R s (result_state (for_each f xs s))"
  using step
proof (induction xs arbitrary: s)
  case Nil
  show ?case by (simp add: refl)
next
  case (Cons a xs)
  have first: "R s (result_state (f a s))" by (rule Cons.prems) simp
  show ?case
  proof (cases "f a s")
    case (Ok s1)
    have "R s1 (result_state (for_each f xs s1))"
      by (rule Cons.IH) (rule Cons.prems, simp)
    then show ?thesis using first Ok trans by auto
  next
    case (Raise err s1)
    then show ?thesis using first by simp
  qed
qed

lemma evolves_refl: "evolves ok e e"
  by (simp add: evolves_def)

lemma evolves_trans: "evolves ok a b \<Longrightarrow> evolves ok b c \<Longrightarrow> evolves ok a c"
  by (simp add: evolves_def)





lemma collect_crater_evolves: "evolves True e (result_state (collect_crater offset res e))"
  by (auto simp: collect_crater_def evolves_def split: option.splits sum.splits prod.splits)

lemma collect_terrain_evolves: "evolves True e (result_state (collect_terrain offset res e))"
  by (auto simp: collect_terrain_def evolves_def split: option.splits sum.splits prod.splits)

lemma collect_loop_evolves:
  "evolves True e (result_state (for_each (collect_crater offset) rs e))"
  "evolves True e (result_state (for_each (collect_terrain offset) rs e))"
  by (rule for_each_rel [where R = "evolves True"], rule evolves_refl, erule evolves_trans, assumption,
      rule collect_crater_evolves collect_terrain_evolves)+



section \<open>The window after construction and after a shift\<close>














text \<open>
  Claim C1, at a failing input. The engine of the scenarios (\<open>num_blocks = 1\<close>, blocks
  of ten units) is shifted by one block in \<open>x\<close>. The padding flag is written through
  the old tracker, so the tile that entered the window at local offset \<open>(2, 0)\<close>, key
  \<open>(20, 0)\<close>, keeps \<^verbatim>\<open>is_padding = False\<close> although \<open>max(\<bar>2\<bar>, \<bar>0\<bar>) = num_blocks + 1\<close>,
  and the tile now at local offset \<open>(1, 0)\<close>, key \<open>(10, 0)\<close>, which was on the margin
  before, keeps \<^verbatim>\<open>is_padding = True\<close>. The last two conjuncts are the values the
  source's own test on the loop indices computes for these two offsets.
\<close>

theorem shift_block_grid_padding_stale:
  "(case shift_block_grid demo (10, 0) of
      Ok e' \<Rightarrow> map_option is_padding (state_at e' (20, 0)) = Some False \<and>
               map_option is_padding (state_at e' (10, 0)) = Some True \<and>
               padding_flag (num_blocks (settings e')) 2 0 \<and>
               \<not> padding_flag (num_blocks (settings e')) 1 0
    | Raise err e' \<Rightarrow> False)"
  by code_simp

section \<open>The dispatcher routes to the first shortest queue\<close>

lemma py_min_from_first:
  assumes "\<forall>x \<in> set pre. key best < key x" and "\<forall>x \<in> set post. key best \<le> key x"
  shows "\<exists>pre' post'. pre @ best # post @ xs = pre' @ py_min_from key best xs # post' \<and>
           (\<forall>x \<in> set pre'. key (py_min_from key best xs) < key x) \<and>
           (\<forall>x \<in> set post'. key (py_min_from key best xs) \<le> key x)"
  using assms
proof (induction xs arbitrary: best pre post)
  case Nil
  then show ?case by auto
next
  case (Cons x xs)
  show ?case
  proof (cases "key x < key best")
    case True
    have a: "\<forall>y \<in> set (pre @ best # post). key x < key y"
      using Cons.prems True by auto
    have b: "\<forall>y \<in> set []. key x \<le> key y" by simp
    from Cons.IH [OF a b] show ?thesis using True by simp
  next
    case False
    have b: "\<forall>y \<in> set (post @ [x]). key best \<le> key y"
      using Cons.prems(2) False by auto
    from Cons.IH [OF Cons.prems(1) b] show ?thesis using False by simp
  qed
qed

lemma upt_split:
  assumes "[0..<n] = pre @ m # post"
  shows "m < n" and "j < m \<Longrightarrow> j \<in> set pre" and "m < j \<Longrightarrow> j < n \<Longrightarrow> j \<in> set post"
    and "j < n \<Longrightarrow> j \<in> set pre \<or> j = m \<or> j \<in> set post"
proof -
  have len: "length pre < n"
    using arg_cong [OF assms, of length] by simp
  have "[0..<n] ! length pre = m" by (simp add: assms)
  then have m: "m = length pre" using len by simp
  show "m < n" using m len by simp
  have set_all: "set (pre @ m # post) = {0..<n}" using assms by (metis atLeastLessThan_upt)
  have dist: "distinct (pre @ m # post)" using assms by (metis distinct_upt)
  have pre_nth: "pre ! i = i" if "i < length pre" for i
  proof -
    have "[0..<n] ! i = pre ! i" using that by (simp add: assms nth_append)
    then show ?thesis using that len by simp
  qed
  show in_pre: "j \<in> set pre" if "j < m" for j
    using that pre_nth [of j] m by (metis nth_mem)
  show in_post: "j \<in> set post" if "m < j" "j < n" for j
  proof -
    have "j \<in> set (pre @ m # post)" using set_all that by simp
    moreover have "j \<notin> set pre"
    proof
      assume "j \<in> set pre"
      then obtain i where "i < length pre" "pre ! i = j" by (auto simp: in_set_conv_nth)
      then show False using pre_nth [of i] m that by simp
    qed
    ultimately show ?thesis using that by auto
  qed
  show "j \<in> set pre \<or> j = m \<or> j \<in> set post" if "j < n"
    using that in_pre [of j] in_post [of j] by (cases j m rule: linorder_cases) auto
qed

lemma get_shortest_queue_index_first:
  assumes "workers \<noteq> []"
  shows "\<exists>i. get_shortest_queue_index workers = Inr i \<and> i < length workers \<and>
           (\<forall>j < length workers. length (workers ! i) \<le> length (workers ! j)) \<and>
           (\<forall>j < i. length (workers ! i) < length (workers ! j))"
proof -
  let ?key = "\<lambda>i. length (workers ! i)"
  let ?n = "length workers"
  have n: "0 < ?n" using assms by simp
  then have upt: "[0..<?n] = 0 # [1..<?n]" by (simp add: upt_rec)
  let ?m = "py_min_from ?key 0 [1..<?n]"
  have res: "get_shortest_queue_index workers = Inr ?m"
    by (simp add: get_shortest_queue_index_def py_min_def upt)
  obtain pre post where sp: "[] @ 0 # [] @ [1..<?n] = pre @ ?m # post"
    and lt: "\<forall>x \<in> set pre. ?key ?m < ?key x" and le: "\<forall>x \<in> set post. ?key ?m \<le> ?key x"
    using py_min_from_first [of "[]" ?key 0 "[]" "[1..<?n]"] by auto
  have eq: "[0..<?n] = pre @ ?m # post" using sp upt by simp
  note u = upt_split [OF eq]
  have "?key ?m \<le> ?key j" if "j < ?n" for j
    using u(4) [OF that] lt le by (auto simp: less_imp_le)
  moreover have "?key ?m < ?key j" if "j < ?m" for j
    using u(2) [OF that] lt by simp
  ultimately show ?thesis using res u(1) by blast
qed

text \<open>
  Claim C9. Whenever the dispatcher routes a job, the worker it chooses has an input
  queue of minimal length among all workers, and is the first worker (lowest index)
  with that length. The lengths are those of one snapshot of the queues; with no
  worker at all the choice raises \<^verbatim>\<open>ValueError\<close>.
\<close>

theorem dispatcher_picks_first_shortest:
  assumes "workers \<noteq> []"
  shows "\<exists>i. dispatch_job (coords, Some d) workers =
                Inr (Some i, workers[i := workers ! i @ [(coords, d)]]) \<and>
              i < length workers \<and>
              (\<forall>j < length workers. length (workers ! i) \<le> length (workers ! j)) \<and>
              (\<forall>j < i. length (workers ! i) < length (workers ! j))"
proof -
  obtain i where i: "get_shortest_queue_index workers = Inr i" "i < length workers"
    "\<forall>j < length workers. length (workers ! i) \<le> length (workers ! j)"
    "\<forall>j < i. length (workers ! i) < length (workers ! j)"
    using get_shortest_queue_index_first [OF assms] by blast
  have "dispatch_job (coords, Some d) workers = Inr (Some i, workers[i := workers ! i @ [(coords, d)]])"
    by (simp add: dispatch_job_def i(1))
  then show ?thesis using i(2-4) by blast
qed

theorem dispatcher_picks_first_shortest_witness:
  "demo_queues \<noteq> [] \<and>
   dispatch_job ((5, 5), Some 7) demo_queues =
     Inr (Some 1, [[((0, 0), 3)], [((5, 5), 7)], [((10, 0), 4)], []])"
proof -
  have ne: "demo_queues \<noteq> []" by (simp add: demo_queues_def)
  show ?thesis
    using ne dispatcher_picks_first_shortest [OF ne, of "(5, 5)" 7]
    by (simp add: demo_queues_def dispatch_job_def get_shortest_queue_index_def py_min_def upt_rec)
qed

section \<open>Collecting a result for a tile that left the window\<close>

lemma for_each_append:
  "for_each f (xs @ ys) s =
     (case for_each f xs s of Ok s' \<Rightarrow> for_each f ys s' | Raise err s' \<Rightarrow> Raise err s')"
  by (induction xs arbitrary: s) (auto split: result.splits)

lemma collect_crater_stale:
  "map_of (map_grid_block2coords e) k = None \<Longrightarrow> collect_crater offset (k, d) e = Raise KeyError e"
  by (simp add: collect_crater_def)

lemma collect_terrain_stale:
  "map_of (map_grid_block2coords e) k = None \<Longrightarrow> collect_terrain offset (k, d) e = Raise KeyError e"
  by (simp add: collect_terrain_def)

lemma collect_loops_keep_map:
  "for_each (collect_crater offset) rs e = Ok e1 \<Longrightarrow> map_grid_block2coords e1 = map_grid_block2coords e"
  "for_each (collect_terrain offset) rs e = Ok e1 \<Longrightarrow> map_grid_block2coords e1 = map_grid_block2coords e"
  using collect_loop_evolves [of e offset rs] by (simp_all add: evolves_def)

text \<open>
  Claim C5, as amended. When a drained result carries a world anchor that is not in
  the world map, \<^verbatim>\<open>collect_terrain_data\<close> raises \<^verbatim>\<open>KeyError\<close> at that result. The
  engine is then exactly as the results before it left it: the buffer is not modified
  by the stale result and no flag is set for it, nor for any result after it. This
  holds in the crater loop (first conjunct: the state is that of collecting only the
  earlier crater results) and in the terrain loop (second conjunct).
\<close>

theorem collect_stale_result_raises:
  fixes e :: "'a::plus HighResDEMGen"
  assumes "map_of (map_grid_block2coords e) k = None"
  shows "(collect_terrain_data e pre [] = Ok e1 \<longrightarrow>
            collect_terrain_data e (pre @ (k, d) # post) terrain = Raise KeyError e1) \<and>
         (collect_terrain_data e craters pre = Ok e2 \<longrightarrow>
            collect_terrain_data e craters (pre @ (k, d) # post) = Raise KeyError e2)"
proof (intro conjI impI)
  let ?off = "raster_offset (settings e)"
  assume a: "collect_terrain_data e pre [] = Ok e1"
  then have res: "resolution (settings e) \<noteq> 0"
    by (auto simp: collect_terrain_data_def split: if_splits)
  have pre: "for_each (collect_crater ?off) pre e = Ok e1"
    using a res by (auto simp: collect_terrain_data_def Let_def split: result.splits)
  have "map_of (map_grid_block2coords e1) k = None"
    using collect_loops_keep_map(1) [OF pre] assms by simp
  then have "for_each (collect_crater ?off) (pre @ (k, d) # post) e = Raise KeyError e1"
    by (simp add: for_each_append pre collect_crater_stale)
  then show "collect_terrain_data e (pre @ (k, d) # post) terrain = Raise KeyError e1"
    using res by (simp add: collect_terrain_data_def Let_def)
next
  let ?off = "raster_offset (settings e)"
  assume a: "collect_terrain_data e craters pre = Ok e2"
  then have res: "resolution (settings e) \<noteq> 0"
    by (auto simp: collect_terrain_data_def split: if_splits)
  obtain e1 where c: "for_each (collect_crater ?off) craters e = Ok e1"
    and t: "for_each (collect_terrain ?off) pre e1 = Ok e2"
    using a res by (auto simp: collect_terrain_data_def Let_def split: result.splits)
  have "map_of (map_grid_block2coords e2) k = None"
    using collect_loops_keep_map(1) [OF c] collect_loops_keep_map(2) [OF t] assms by simp
  then have "for_each (collect_terrain ?off) (pre @ (k, d) # post) e1 = Raise KeyError e2"
    by (simp add: for_each_append t collect_terrain_stale)
  then show "collect_terrain_data e craters (pre @ (k, d) # post) = Raise KeyError e2"
    using res by (simp add: collect_terrain_data_def Let_def c)
qed

lemma demo_far_anchor: "map_of (map_grid_block2coords demo) (1000, 1000) = None"
  by code_simp

lemma result_state_Ok: "(case r of Ok _ \<Rightarrow> True | Raise _ _ \<Rightarrow> False) \<Longrightarrow> r = Ok (result_state r)"
  by (cases r) simp_all

lemma demo_collected_ok:
  "collect_terrain_data demo [((0, 0), zeros 10 10)] [] = Ok demo_collected"
proof -
  have "(case collect_terrain_data demo [((0, 0), zeros 10 10)] [] of Ok _ \<Rightarrow> True | Raise _ _ \<Rightarrow> False)"
    by code_simp
  then show ?thesis unfolding demo_collected_def by (rule result_state_Ok)
qed

text \<open>
  Claim C5 as stated fails: with one crater result for the anchor \<open>(1000, 1000)\<close>,
  which is not in the window of the engine, the collection does not complete; it
  raises \<^verbatim>\<open>KeyError\<close> and leaves the engine unchanged.
\<close>

theorem collect_stale_result_counterexample:
  "collect_terrain_data demo [((1000, 1000), zeros 10 10)] [] = Raise KeyError demo"
  by (simp add: collect_terrain_data_def demo_fields demo_cfg_def collect_crater_stale [OF demo_far_anchor])

theorem collect_stale_result_raises_witness:
  "map_of (map_grid_block2coords demo) (1000, 1000) = None \<and>
   collect_terrain_data demo [((0, 0), zeros 10 10)] [] = Ok demo_collected \<and>
   collect_terrain_data demo [((0, 0), zeros 10 10), ((1000, 1000), zeros 10 10), ((10, 0), zeros 10 10)] []
     = Raise KeyError demo_collected"
  using demo_far_anchor demo_collected_ok
    collect_stale_result_raises [OF demo_far_anchor, of "[((0, 0), zeros 10 10)]" demo_collected
      "zeros 10 10" "[((10, 0), zeros 10 10)]" "[]"]
  by simp

section \<open>Flags during the lifetime of a tile\<close>

text \<open>
  On a grid that satisfies the invariant the regeneration never raises, and the raster
  shift never raises at all: of the steps of a lifetime only the collection can fail.
\<close>

lemma metadata_cell_returns:
  assumes "grid_inv s" and "map_grid_block2coords s = map_grid_block2coords e"
    and "x \<in> set (map fst (map_grid_block2coords e))"
  shows "\<exists>s'. metadata_cell ex x s = Ok s' \<and> grid_inv s' \<and>
           map_grid_block2coords s' = map_grid_block2coords e"
proof -
  have "map_of (map_grid_block2coords s) x \<noteq> None"
    using assms(2,3) by (simp add: map_of_eq_None_iff)
  then obtain k where k: "map_of (map_grid_block2coords s) x = Some k" by blast
  obtain r where r: "map_of (block_grid_tracker s) k = Some r"
    using grid_inv_map_lookup [OF assms(1) k] by blast
  have "metadata_cell ex x s =
          Ok (s\<lparr>store := (store s)(r := (store s r)\<lparr>has_crater_metadata := ex x\<rparr>)\<rparr>)"
    by (simp add: metadata_cell_def k r)
  then show ?thesis using assms(1,2) by (simp add: grid_inv_def)
qed

lemma generate_craters_metadata_returns:
  assumes "grid_inv e"
  shows "\<exists>e'. generate_craters_metadata db e = Ok e'"
proof -
  define Q where "Q = (\<lambda>(S :: coord set) (s :: 'a HighResDEMGen).
     grid_inv s \<and> map_grid_block2coords s = map_grid_block2coords e)"
  have init: "Q {} e" using assms by (simp add: Q_def)
  have step: "\<exists>s'. metadata_cell (db (crater_region e)) x s = Ok s' \<and> Q (insert x S) s'"
    if "x \<in> set (map fst (map_grid_block2coords e))" and "Q S s" for x S s
    using metadata_cell_returns [of s e x "db (crater_region e)"] that by (simp add: Q_def)
  have "\<exists>s'. for_each (metadata_cell (db (crater_region e))) (map fst (map_grid_block2coords e)) e = Ok s' \<and>
          Q ({} \<union> set (map fst (map_grid_block2coords e))) s'"
    using init step by (rule for_each_ghost)
  then show ?thesis by (auto simp: generate_craters_metadata_def)
qed

lemma shift_dem_returns: "\<exists>e'. shift_dem e px = Ok e'"
proof -
  obtain dx dy where "px = (dx, dy)" by (cases px)
  then show ?thesis
    using shift_dem_buffer_elems [of "high_res_dem e" dx dy] by (auto simp: shift_dem_def)
qed













section \<open>The centre pixel of a coarse patch\<close>









section \<open>The padding stored by the interpolator configuration\<close>









end
